theory Spec2Isabelle
  imports Main
begin

section \<open>URL shortener: data model\<close>

text \<open>
  The model follows \<^verbatim>\<open>src/url-shortner/main.py\<close>. The table \<^verbatim>\<open>urls\<close> is the
  list of its rows in insertion order; a handler takes the table and returns its
  outcome together with the table after the request. An exception raised by a handler
  is the \<open>Inl\<close> branch of the outcome, and the table is then the one of the last
  commit. Everything the handlers read from outside (the clock, the random source,
  the URL validator, the QR renderer) is an argument.
\<close>

text \<open>A \<^verbatim>\<open>datetime\<close> is its number of microseconds since 0001-01-01T00:00:00.\<close>

type_synonym datetime = int

text \<open>The ORM class \<^verbatim>\<open>URL\<close> (lines 26-36); the column \<^verbatim>\<open>id\<close> is \<open>url_id\<close>.\<close>

record URL =
  url_id :: nat
  short_code :: string
  original_url :: string
  created_at :: datetime
  click_count :: int
  expires_at :: "datetime option"
  is_active :: bool
  title :: "string option"

text \<open>\<^verbatim>\<open>URLShortenRequest\<close> (lines 42-46); \<open>url\<close> holds \<^verbatim>\<open>str(request.url)\<close>.\<close>

record URLShortenRequest =
  url :: string
  custom_alias :: "string option"
  expires_in_days :: "int option"
  req_title :: "string option"

text \<open>\<^verbatim>\<open>BulkURLRequest\<close> (lines 48-50).\<close>

record BulkURLRequest =
  urls :: "string list"
  bulk_expires_in_days :: "int option"

text \<open>\<^verbatim>\<open>URLResponse\<close> (lines 52-60).\<close>

record URLResponse =
  short_url :: string
  resp_original_url :: string
  resp_click_count :: int
  resp_created_at :: datetime
  resp_expires_at :: "datetime option"
  resp_is_active :: bool
  resp_title :: "string option"
  qr_code :: "string option"

text \<open>\<^verbatim>\<open>BulkURLResponse\<close> (lines 62-65).\<close>

record BulkURLResponse =
  results :: "URLResponse list"
  total_created :: int
  errors :: "string list"

text \<open>
  What a handler can raise: an \<^verbatim>\<open>HTTPException\<close> with its status code and detail,
  the \<^verbatim>\<open>OverflowError\<close> of the date arithmetic, the \<^verbatim>\<open>IntegrityError\<close> of the
  unique index on \<^verbatim>\<open>short_code\<close>, and the rejection of a request body that does not
  fit its request model (status 422, raised before the handler runs).
\<close>

datatype error =
    HTTPException nat string
  | OverflowError
  | IntegrityError
  | RequestValidationError

fun status_code :: "error \<Rightarrow> nat" where
  "status_code (HTTPException n d) = n"
| "status_code OverflowError = 500"
| "status_code IntegrityError = 500"
| "status_code RequestValidationError = 422"

text \<open>
  The collaborators that are not code of the repository: \<^verbatim>\<open>validators.url\<close>,
  the \<^verbatim>\<open>qrcode\<close> renderer behind \<^verbatim>\<open>generate_qr_code\<close>, and \<^verbatim>\<open>str(e)\<close> of a
  caught exception.
\<close>

record env =
  validators_url :: "string \<Rightarrow> bool"
  render_qr :: "string \<Rightarrow> string"
  str_exc :: "error \<Rightarrow> string"

section \<open>Utility functions\<close>

text \<open>\<^verbatim>\<open>string.ascii_letters + string.digits\<close> (line 84).\<close>

definition characters :: string where
  "characters = ''abcdefghijklmnopqrstuvwxyzABCDEFGHIJKLMNOPQRSTUVWXYZ0123456789''"

text \<open>
  \<^verbatim>\<open>secrets.choice(seq)\<close> is \<^verbatim>\<open>seq[randbelow(len(seq))]\<close>; the random source is a
  sequence \<open>rnd\<close> of raw draws and \<^verbatim>\<open>randbelow(n)\<close> reduces a draw below \<open>n\<close>.
\<close>

definition secrets_choice :: "nat \<Rightarrow> string \<Rightarrow> char" where
  "secrets_choice r seq = seq ! (r mod length seq)"

text \<open>
  \<^verbatim>\<open>generate_short_code\<close> (lines 82-85), reading the draws of \<open>rnd\<close> from
  position \<open>pos\<close> on; \<^verbatim>\<open>range(length)\<close> is empty for a negative length.
\<close>

definition generate_short_code :: "(nat \<Rightarrow> nat) \<Rightarrow> nat \<Rightarrow> int \<Rightarrow> string" where
  "generate_short_code rnd pos len =
     map (\<lambda>i. secrets_choice (rnd (pos + i)) characters) [0..<nat len]"

text \<open>The default argument \<^verbatim>\<open>length: int = 6\<close>.\<close>

definition default_length :: int where
  "default_length = 6"

text \<open>\<^verbatim>\<open>is_valid_url\<close> (lines 87-89).\<close>

definition is_valid_url :: "env \<Rightarrow> string \<Rightarrow> bool" where
  "is_valid_url e u = validators_url e u"

text \<open>\<^verbatim>\<open>generate_qr_code\<close> (lines 91-104).\<close>

definition generate_qr_code :: "env \<Rightarrow> string \<Rightarrow> string" where
  "generate_qr_code e u = ''data:image/png;base64,'' @ render_qr e u"

text \<open>
  \<^verbatim>\<open>is_url_expired\<close> (lines 106-110); \<open>now\<close> is the value of
  \<^verbatim>\<open>datetime.utcnow()\<close>. A \<^verbatim>\<open>datetime\<close> is never falsy, so
  \<^verbatim>\<open>not url_record.expires_at\<close> holds exactly for \<^verbatim>\<open>None\<close>.
\<close>

definition is_url_expired :: "datetime \<Rightarrow> URL \<Rightarrow> bool" where
  "is_url_expired now url_record =
     (case expires_at url_record of None \<Rightarrow> False | Some e \<Rightarrow> now > e)"

section \<open>Dates\<close>

text \<open>
  \<^verbatim>\<open>timedelta(days=d)\<close> raises \<^verbatim>\<open>OverflowError\<close> beyond 999999999 days, and
  adding it to a \<^verbatim>\<open>datetime\<close> raises \<^verbatim>\<open>OverflowError\<close> outside the years 1 to 9999
  (3652059 days).
\<close>

definition us_per_day :: int where
  "us_per_day = 86400000000"

definition datetime_max :: datetime where
  "datetime_max = 3652059 * us_per_day - 1"

definition timedelta_days :: "int \<Rightarrow> error + int" where
  "timedelta_days d =
     (if - 999999999 \<le> d \<and> d \<le> 999999999 then Inr (d * us_per_day) else Inl OverflowError)"

definition datetime_add :: "datetime \<Rightarrow> int \<Rightarrow> error + datetime" where
  "datetime_add t delta =
     (if 0 \<le> t + delta \<and> t + delta \<le> datetime_max then Inr (t + delta) else Inl OverflowError)"

text \<open>
  Lines 141-144 (and 236-239): \<^verbatim>\<open>if request.expires_in_days:\<close> is false for
  \<^verbatim>\<open>None\<close> and for 0.
\<close>

definition calc_expires_at :: "datetime \<Rightarrow> int option \<Rightarrow> error + datetime option" where
  "calc_expires_at now days =
     (case days of
        None \<Rightarrow> Inr None
      | Some d \<Rightarrow>
          if d = 0 then Inr None
          else (case timedelta_days d of
                  Inl err \<Rightarrow> Inl err
                | Inr delta \<Rightarrow>
                    (case datetime_add now delta of
                       Inl err \<Rightarrow> Inl err
                     | Inr t \<Rightarrow> Inr (Some t))))"

section \<open>The table\<close>

text \<open>\<^verbatim>\<open>db.query(URL).filter(URL.short_code == c).first()\<close>.\<close>

definition query_first :: "URL list \<Rightarrow> string \<Rightarrow> URL option" where
  "query_first db c = find (\<lambda>r. short_code r = c) db"

text \<open>The next value of the integer primary key.\<close>

definition next_id :: "URL list \<Rightarrow> nat" where
  "next_id db = Suc (fold max (map url_id db) 0)"

text \<open>
  \<^verbatim>\<open>db.add(db_url); db.commit(); db.refresh(db_url)\<close> for a new row
  (lines 146-155): the column defaults fill \<^verbatim>\<open>created_at\<close> (the clock at the
  insert, \<open>ts\<close>), \<^verbatim>\<open>click_count\<close> and \<^verbatim>\<open>is_active\<close>; the unique index on
  \<^verbatim>\<open>short_code\<close> refuses a second row with a code.
\<close>

definition db_add_commit ::
  "datetime \<Rightarrow> string \<Rightarrow> string \<Rightarrow> datetime option \<Rightarrow> string option \<Rightarrow> URL list
     \<Rightarrow> error + (URL \<times> URL list)" where
  "db_add_commit ts code orig exp ttl db =
     (if query_first db code \<noteq> None then Inl IntegrityError
      else
        (let db_url = \<lparr>url_id = next_id db, short_code = code, original_url = orig,
                        created_at = ts, click_count = 0, expires_at = exp,
                        is_active = True, title = ttl\<rparr>
         in Inr (db_url, db @ [db_url])))"

text \<open>
  \<^verbatim>\<open>db.commit()\<close> after a change of a loaded row: the row with that primary key is
  replaced.
\<close>

definition db_commit_update :: "URL \<Rightarrow> URL list \<Rightarrow> URL list" where
  "db_commit_update r db = map (\<lambda>x. if url_id x = url_id r then r else x) db"

text \<open>The two constraints of the table: primary key and unique index.\<close>

definition table_ok :: "URL list \<Rightarrow> bool" where
  "table_ok db = (distinct (map url_id db) \<and> distinct (map short_code db))"

section \<open>Handlers\<close>

text \<open>
  The loop of lines 135-139 (and 230-234): draw codes until one is not in the table.
  It returns the code and the position of the next unread draw, and no value when
  every draw is taken.
\<close>

partial_function (option) unique_short_code ::
  "(nat \<Rightarrow> nat) \<Rightarrow> nat \<Rightarrow> URL list \<Rightarrow> (string \<times> nat) option" where
  "unique_short_code rnd pos db =
     (if query_first db (generate_short_code rnd pos default_length) = None
      then Some (generate_short_code rnd pos default_length, pos + nat default_length)
      else unique_short_code rnd (pos + nat default_length) db)"

declare unique_short_code.simps [code]

definition base_url :: string where
  "base_url = ''http://localhost:8000/''"

text \<open>
  Lines 141-170 of \<^verbatim>\<open>shorten_url\<close>, once the code is chosen: \<open>now\<close> is the clock
  read at line 144, \<open>ts\<close> the clock at the insert.
\<close>

definition create_url ::
  "env \<Rightarrow> datetime \<Rightarrow> datetime \<Rightarrow> URLShortenRequest \<Rightarrow> string \<Rightarrow> URL list
     \<Rightarrow> (error + URLResponse) \<times> URL list" where
  "create_url e now ts request code db =
     (case calc_expires_at now (expires_in_days request) of
        Inl err \<Rightarrow> (Inl err, db)
      | Inr exp \<Rightarrow>
          (case db_add_commit ts code (url request) exp (req_title request) db of
             Inl err \<Rightarrow> (Inl err, db)
           | Inr (db_url, db') \<Rightarrow>
               (Inr \<lparr>short_url = base_url @ code,
                     resp_original_url = url request,
                     resp_click_count = 0,
                     resp_created_at = created_at db_url,
                     resp_expires_at = exp,
                     resp_is_active = True,
                     resp_title = req_title request,
                     qr_code = Some (generate_qr_code e (base_url @ code))\<rparr>, db')))"

text \<open>
  \<^verbatim>\<open>shorten_url\<close> (lines 118-170). \<^verbatim>\<open>if request.custom_alias:\<close> is false for
  \<^verbatim>\<open>None\<close> and for the empty string. The result is \<open>None\<close> when the loop of
  lines 135-139 does not end.
\<close>

definition shorten_url ::
  "env \<Rightarrow> (nat \<Rightarrow> nat) \<Rightarrow> datetime \<Rightarrow> datetime \<Rightarrow> URLShortenRequest \<Rightarrow> URL list
     \<Rightarrow> ((error + URLResponse) \<times> URL list) option" where
  "shorten_url e rnd now ts request db =
     (if \<not> is_valid_url e (url request)
      then Some (Inl (HTTPException 400 ''Invalid URL format''), db)
      else if custom_alias request \<noteq> None \<and> custom_alias request \<noteq> Some []
      then
        (if query_first db (the (custom_alias request)) \<noteq> None
         then Some (Inl (HTTPException 400 ''Custom alias already exists''), db)
         else Some (create_url e now ts request (the (custom_alias request)) db))
      else
        (case unique_short_code rnd 0 db of
           None \<Rightarrow> None
         | Some (code, pos) \<Rightarrow> Some (create_url e now ts request code db)))"

text \<open>\<^verbatim>\<open>redirect_url\<close> (lines 172-191); \<open>now\<close> is the clock read by line 110.\<close>

definition redirect_url :: "datetime \<Rightarrow> string \<Rightarrow> URL list \<Rightarrow> (error + string) \<times> URL list" where
  "redirect_url now c db =
     (case query_first db c of
        None \<Rightarrow> (Inl (HTTPException 404 ''URL not found''), db)
      | Some url_record \<Rightarrow>
          if \<not> is_active url_record
          then (Inl (HTTPException 410 ''URL has been deactivated''), db)
          else if is_url_expired now url_record
          then (Inl (HTTPException 410 ''URL has expired''), db)
          else (Inr (original_url url_record),
                db_commit_update (url_record\<lparr>click_count := click_count url_record + 1\<rparr>) db))"

text \<open>\<^verbatim>\<open>get_url_stats\<close> (lines 193-214).\<close>

definition get_url_stats :: "env \<Rightarrow> string \<Rightarrow> URL list \<Rightarrow> (error + URLResponse) \<times> URL list" where
  "get_url_stats e c db =
     (case query_first db c of
        None \<Rightarrow> (Inl (HTTPException 404 ''URL not found''), db)
      | Some url_record \<Rightarrow>
          (Inr \<lparr>short_url = base_url @ short_code url_record,
                resp_original_url = original_url url_record,
                resp_click_count = click_count url_record,
                resp_created_at = created_at url_record,
                resp_expires_at = expires_at url_record,
                resp_is_active = is_active url_record,
                resp_title = title url_record,
                qr_code = Some (generate_qr_code e (base_url @ short_code url_record))\<rparr>, db))"

text \<open>\<^verbatim>\<open>deactivate_url\<close> (lines 274-285).\<close>

definition deactivate_url :: "string \<Rightarrow> URL list \<Rightarrow> (error + string) \<times> URL list" where
  "deactivate_url c db =
     (case query_first db c of
        None \<Rightarrow> (Inl (HTTPException 404 ''URL not found''), db)
      | Some url_record \<Rightarrow>
          (Inr ''URL deactivated successfully'',
           db_commit_update (url_record\<lparr>is_active := False\<rparr>) db))"

text \<open>
  \<^verbatim>\<open>redirect_url\<close> with the check of lines 184-185 placed before the check of
  lines 181-182: the other order of the two checks, for comparison.
\<close>

definition redirect_url_expiry_first ::
  "datetime \<Rightarrow> string \<Rightarrow> URL list \<Rightarrow> (error + string) \<times> URL list" where
  "redirect_url_expiry_first now c db =
     (case query_first db c of
        None \<Rightarrow> (Inl (HTTPException 404 ''URL not found''), db)
      | Some url_record \<Rightarrow>
          if is_url_expired now url_record
          then (Inl (HTTPException 410 ''URL has expired''), db)
          else if \<not> is_active url_record
          then (Inl (HTTPException 410 ''URL has been deactivated''), db)
          else (Inr (original_url url_record),
                db_commit_update (url_record\<lparr>click_count := click_count url_record + 1\<rparr>) db))"

text \<open>
  The loop body of \<^verbatim>\<open>bulk_shorten_urls\<close> (lines 222-266) over the remaining URLs.
  Lines 236-263 are lines 141-170 for a request without alias and title; \<open>clock i\<close>
  gives the two clock readings (line 239, insert) of the \<open>i\<close>-th URL, \<open>pos\<close> is the
  next unread draw. An exception of the body becomes an entry of \<open>errors\<close>
  (line 266) and the loop goes on.
\<close>

fun bulk_loop ::
  "env \<Rightarrow> (nat \<Rightarrow> nat) \<Rightarrow> (nat \<Rightarrow> datetime \<times> datetime) \<Rightarrow> int option \<Rightarrow> string list
     \<Rightarrow> nat \<Rightarrow> nat \<Rightarrow> URLResponse list \<Rightarrow> string list \<Rightarrow> URL list
     \<Rightarrow> (URLResponse list \<times> string list \<times> URL list) option" where
  "bulk_loop e rnd clock days [] i pos rs es db = Some (rs, es, db)"
| "bulk_loop e rnd clock days (u # us) i pos rs es db =
     (if \<not> is_valid_url e u
      then bulk_loop e rnd clock days us (Suc i) pos rs
             (es @ [''Invalid URL format: '' @ u]) db
      else
        (case unique_short_code rnd pos db of
           None \<Rightarrow> None
         | Some (code, pos') \<Rightarrow>
             (case create_url e (fst (clock i)) (snd (clock i))
                     \<lparr>url = u, custom_alias = None, expires_in_days = days, req_title = None\<rparr>
                     code db of
                (Inl err, db') \<Rightarrow>
                  bulk_loop e rnd clock days us (Suc i) pos' rs
                    (es @ [''Error processing '' @ u @ '': '' @ str_exc e err]) db'
              | (Inr resp, db') \<Rightarrow>
                  bulk_loop e rnd clock days us (Suc i) pos' (rs @ [resp]) es db')))"

text \<open>\<^verbatim>\<open>bulk_shorten_urls\<close> (lines 216-272).\<close>

definition bulk_shorten_urls ::
  "env \<Rightarrow> (nat \<Rightarrow> nat) \<Rightarrow> (nat \<Rightarrow> datetime \<times> datetime) \<Rightarrow> BulkURLRequest \<Rightarrow> URL list
     \<Rightarrow> (BulkURLResponse \<times> URL list) option" where
  "bulk_shorten_urls e rnd clock request db =
     (case bulk_loop e rnd clock (bulk_expires_in_days request) (urls request) 0 0 [] [] db of
        None \<Rightarrow> None
      | Some (rs, es, db') \<Rightarrow>
          Some (\<lparr>results = rs, total_created = int (length rs), errors = es\<rparr>, db'))"

section \<open>The request model of the bulk route\<close>

text \<open>
  The type \<^verbatim>\<open>HttpUrl\<close> of \<^verbatim>\<open>BulkURLRequest.urls\<close> (line 49) comes from pydantic,
  which is not code of the repository. It is modelled by what every \<^verbatim>\<open>HttpUrl\<close>
  has: the scheme \<^verbatim>\<open>http\<close> or \<^verbatim>\<open>https\<close> (in any case of the letters), then
  \<^verbatim>\<open>://\<close> and a host that is not empty.
\<close>

definition ascii_lower :: "char \<Rightarrow> char" where
  "ascii_lower ch =
     (if 65 \<le> (of_char ch :: nat) \<and> (of_char ch :: nat) \<le> 90
      then char_of ((of_char ch :: nat) + 32) else ch)"

definition HttpUrl :: "string \<Rightarrow> bool" where
  "HttpUrl s =
     ((map ascii_lower (take 7 s) = ''http://'' \<and> 7 < length s)
      \<or> (map ascii_lower (take 8 s) = ''https://'' \<and> 8 < length s))"



section \<open>Sequences of requests\<close>

text \<open>
  A request to one of the routes, with what the handler reads from the clock and the
  random source while it serves it.
\<close>

datatype request =
    Shorten "nat \<Rightarrow> nat" datetime datetime URLShortenRequest
  | BulkShorten "nat \<Rightarrow> nat" "nat \<Rightarrow> datetime \<times> datetime" BulkURLRequest
  | Redirect datetime string
  | Stats string
  | Deactivate string

text \<open>The table after a request; no value when the handler does not return.\<close>

fun handle :: "env \<Rightarrow> request \<Rightarrow> URL list \<Rightarrow> URL list option" where
  "handle e (Shorten rnd now ts rq) db = map_option snd (shorten_url e rnd now ts rq db)"
| "handle e (BulkShorten rnd clock rq) db = map_option snd (bulk_shorten_urls e rnd clock rq db)"
| "handle e (Redirect now c) db = Some (snd (redirect_url now c db))"
| "handle e (Stats c) db = Some (snd (get_url_stats e c db))"
| "handle e (Deactivate c) db = Some (snd (deactivate_url c db))"

fun run :: "env \<Rightarrow> request list \<Rightarrow> URL list \<Rightarrow> URL list option" where
  "run e [] db = Some db"
| "run e (q # qs) db = (case handle e q db of None \<Rightarrow> None | Some db' \<Rightarrow> run e qs db')"

text \<open>Whether a request is a redirect of the code \<open>c\<close> that succeeds on the table.\<close>

fun redirected :: "string \<Rightarrow> request \<Rightarrow> URL list \<Rightarrow> bool" where
  "redirected c (Redirect now c') db = (c' = c \<and> isl (fst (redirect_url now c' db)) = False)"
| "redirected c (Shorten rnd now ts rq) db = False"
| "redirected c (BulkShorten rnd clock rq) db = False"
| "redirected c (Stats c') db = False"
| "redirected c (Deactivate c') db = False"

text \<open>The number of successful redirects of \<open>c\<close> while the requests are served in turn.\<close>

fun successful_redirects :: "env \<Rightarrow> string \<Rightarrow> request list \<Rightarrow> URL list \<Rightarrow> nat" where
  "successful_redirects e c [] db = 0"
| "successful_redirects e c (q # qs) db =
     (case handle e q db of
        None \<Rightarrow> 0
      | Some db' \<Rightarrow> (if redirected c q db then 1 else 0) + successful_redirects e c qs db')"

section \<open>Auxiliary notions for the proofs\<close>

text \<open>
  \<open>appends P db db'\<close>: the table \<open>db'\<close> is \<open>db\<close> followed by new rows that all satisfy
  \<open>P\<close>, and it keeps the constraints of the table.
\<close>

definition appends :: "(URL \<Rightarrow> bool) \<Rightarrow> URL list \<Rightarrow> URL list \<Rightarrow> bool" where
  "appends P db db' =
     (\<exists>rows. db' = db @ rows \<and> (\<forall>x\<in>set rows. P x) \<and> (table_ok db \<longrightarrow> table_ok db'))"



section \<open>Example data\<close>

text \<open>
  A validator that accepts what the request model accepts, an instant in the year
  2025, and two rows: one live, one deactivated and past its expiry.
\<close>

definition ex_env :: env where
  "ex_env = \<lparr>validators_url = HttpUrl, render_qr = (\<lambda>u. u), str_exc = (\<lambda>x. ''error'')\<rparr>"

definition ex_now :: datetime where
  "ex_now = 63900000000000000"

definition ex_rq :: URLShortenRequest where
  "ex_rq = \<lparr>url = ''https://example.com/x'', custom_alias = None, expires_in_days = None,
             req_title = None\<rparr>"

definition ex_row :: URL where
  "ex_row = \<lparr>url_id = 1, short_code = ''abcdef'', original_url = ''https://example.com/x'',
              created_at = 63900000000000001, click_count = 0, expires_at = None,
              is_active = True, title = None\<rparr>"

definition ex_inactive :: URL where
  "ex_inactive = \<lparr>url_id = 2, short_code = ''abc'', original_url = ''https://a.com'',
                   created_at = 10, click_count = 3, expires_at = Some 20,
                   is_active = False, title = None\<rparr>"

text \<open>The table after two shorten requests, one with a custom alias and a bulk request.\<close>

definition ex_table :: "URL list" where
  "ex_table =
     [\<lparr>url_id = 1, short_code = ''abcdef'', original_url = ''https://example.com/x'',
        created_at = 63900000000000001, click_count = 0, expires_at = None,
        is_active = True, title = None\<rparr>,
      \<lparr>url_id = 2, short_code = ''ghijkl'', original_url = ''https://example.com/x'',
        created_at = 63900000000000003, click_count = 0, expires_at = None,
        is_active = True, title = None\<rparr>,
      \<lparr>url_id = 3, short_code = ''mine'', original_url = ''https://example.com/x'',
        created_at = 63900000000000005, click_count = 0, expires_at = None,
        is_active = True, title = None\<rparr>,
      \<lparr>url_id = 4, short_code = ''mnopqr'', original_url = ''https://a.com'',
        created_at = 63900000000000007, click_count = 0, expires_at = None,
        is_active = True, title = None\<rparr>,
      \<lparr>url_id = 5, short_code = ''stuvwx'', original_url = ''https://b.com'',
        created_at = 63900000000000007, click_count = 0, expires_at = None,
        is_active = True, title = None\<rparr>]"



section \<open>The code generator\<close>

lemma characters_length: "length characters = 62"
  by (simp add: characters_def)

lemma characters_distinct: "distinct characters"
  by (simp add: characters_def)

lemma secrets_choice_characters: "secrets_choice r characters \<in> set characters"
  unfolding secrets_choice_def by (rule nth_mem) (simp add: characters_length)

text \<open>
  C8: a generated code of length \<open>L\<close> has exactly \<open>L\<close> characters, each of them in the
  alphabet of the 62 letters and digits, and the default length is 6.
\<close>

theorem generate_short_code_shape:
  "(0 \<le> L \<longrightarrow> int (length (generate_short_code rnd pos L)) = L)
   \<and> set (generate_short_code rnd pos L) \<subseteq> set characters
   \<and> length characters = 62 \<and> distinct characters
   \<and> characters = ''abcdefghijklmnopqrstuvwxyzABCDEFGHIJKLMNOPQRSTUVWXYZ0123456789''
   \<and> default_length = 6"
proof -
  have "set (generate_short_code rnd pos L) \<subseteq> set characters"
    by (auto simp: generate_short_code_def secrets_choice_characters)
  moreover have "0 \<le> L \<longrightarrow> int (length (generate_short_code rnd pos L)) = L"
    by (simp add: generate_short_code_def)
  ultimately show ?thesis
    by (simp add: characters_length characters_distinct default_length_def)
       (simp add: characters_def)
qed

theorem generate_short_code_shape_witness:
  "(0::int) \<le> 6 \<and> generate_short_code (\<lambda>i. 7 * i + 3) 0 6 = ''dkryFM''
   \<and> int (length (generate_short_code (\<lambda>i. 7 * i + 3) 0 6)) = 6
   \<and> set (generate_short_code (\<lambda>i. 7 * i + 3) 0 6) \<subseteq> set characters"
proof -
  have v: "generate_short_code (\<lambda>i. 7 * i + 3) 0 6 = ''dkryFM''"
    by code_simp
  note t = generate_short_code_shape [of 6 "\<lambda>i. 7 * i + 3" 0]
  from t [THEN conjunct1]
  have "int (length (generate_short_code (\<lambda>i. 7 * i + 3) 0 6)) = 6"
    by simp
  moreover from t
  have "set (generate_short_code (\<lambda>i. 7 * i + 3) 0 6) \<subseteq> set characters"
    by (rule conjunct2 [THEN conjunct1])
  ultimately show ?thesis
    using v by simp
qed

section \<open>Properties of the handlers\<close>

lemma query_first_None_iff: "query_first db c = None \<longleftrightarrow> c \<notin> set (map short_code db)"
  by (auto simp: query_first_def find_None_iff)

lemma query_first_SomeD:
  "query_first db c = Some r \<Longrightarrow> r \<in> set db \<and> short_code r = c"
  unfolding query_first_def by (induction db) (auto split: if_splits)

lemma query_first_index:
  "query_first db c = Some r \<Longrightarrow> \<exists>i<length db. db ! i = r"
  by (meson in_set_conv_nth query_first_SomeD)

lemma db_commit_update_eq:
  assumes "distinct (map url_id db)" and "r \<in> set db" and "url_id r' = url_id r"
  shows "db_commit_update r' db = map (\<lambda>x. if x = r then r' else x) db"
proof -
  have "inj_on url_id (set db)"
    using assms(1) by (simp add: distinct_map)
  then have "\<And>x. x \<in> set db \<Longrightarrow> (url_id x = url_id r') = (x = r)"
    using assms(2,3) by (auto dest: inj_onD)
  then show ?thesis
    unfolding db_commit_update_def by (intro map_cong) auto
qed

lemma map_replace_nth:
  "distinct xs \<Longrightarrow> i < length xs \<Longrightarrow> map (\<lambda>x. if x = xs ! i then y else x) xs = xs[i := y]"
  by (auto simp: list_eq_iff_nth_eq nth_eq_iff_index_eq)

lemma distinct_rows: "distinct (map url_id db) \<Longrightarrow> distinct db"
  by (simp add: distinct_map)

lemma db_commit_update_nth:
  assumes "distinct (map url_id db)" and "i < length db" and "url_id r' = url_id (db ! i)"
  shows "db_commit_update r' db = db[i := r']"
  using assms db_commit_update_eq [of db "db ! i" r'] map_replace_nth [of db i r'] distinct_rows [of db]
  by simp

lemma query_first_stored:
  "distinct (map short_code db) \<Longrightarrow> r \<in> set db \<Longrightarrow> query_first db (short_code r) = Some r"
  unfolding query_first_def by (induction db) auto

text \<open>
  C1: for a stored record with short code \<open>c\<close> that is deactivated, or whose
  \<open>expires_at\<close> is present and in the past, resolving \<open>c\<close> raises status 410 (Gone),
  whatever the other of the two fields is and in whichever order the two checks are
  made; the table is returned as it was, so no click is counted.
\<close>

theorem redirect_blocked_gone:
  assumes "table_ok db" and "r \<in> set db" and "short_code r = c"
    and "\<not> is_active r \<or> (\<exists>t. expires_at r = Some t \<and> t < now)"
  shows "(\<exists>d. redirect_url now c db = (Inl (HTTPException 410 d), db))
       \<and> (\<exists>d. redirect_url_expiry_first now c db = (Inl (HTTPException 410 d), db))"
proof -
  have "query_first db c = Some r"
    using assms(1-3) query_first_stored [of db r] by (simp add: table_ok_def)
  then show ?thesis
    using assms(4)
    by (auto simp: redirect_url_def redirect_url_expiry_first_def is_url_expired_def)
qed

theorem redirect_blocked_gone_witness:
  "table_ok [ex_inactive] \<and> ex_inactive \<in> set [ex_inactive]
   \<and> short_code ex_inactive = ''abc''
   \<and> \<not> is_active ex_inactive \<and> expires_at ex_inactive = Some 20 \<and> (20::int) < 30
   \<and> redirect_url 30 ''abc'' [ex_inactive]
        = (Inl (HTTPException 410 ''URL has been deactivated''), [ex_inactive])
   \<and> redirect_url_expiry_first 30 ''abc'' [ex_inactive]
        = (Inl (HTTPException 410 ''URL has expired''), [ex_inactive])"
  using redirect_blocked_gone [of "[ex_inactive]" ex_inactive "''abc''" 30]
  by (simp add: table_ok_def redirect_url_def redirect_url_expiry_first_def
      query_first_def is_url_expired_def ex_inactive_def)

text \<open>
  C6: resolving a short code that matches no record raises status 404 (NotFound) and
  never 410; a failed resolve has status 404 exactly when no record has the code and
  status 410 exactly when one has, so the two outcomes tell the cases apart.
\<close>

theorem redirect_unknown_not_found:
  "(c \<notin> set (map short_code db) \<longrightarrow>
      redirect_url now c db = (Inl (HTTPException 404 ''URL not found''), db))
   \<and> (\<forall>err. fst (redirect_url now c db) = Inl err \<longrightarrow>
        (status_code err = 404 \<longleftrightarrow> c \<notin> set (map short_code db))
        \<and> (status_code err = 410 \<longleftrightarrow> c \<in> set (map short_code db)))"
proof (cases "query_first db c")
  case None
  then show ?thesis
    using query_first_None_iff [of db c] by (simp add: redirect_url_def)
next
  case (Some r)
  then have "c \<in> set (map short_code db)"
    using query_first_None_iff [of db c] by simp
  then show ?thesis
    using Some by (auto simp: redirect_url_def)
qed

theorem redirect_unknown_not_found_witness:
  "''nosuch'' \<notin> set (map short_code [ex_inactive])
   \<and> redirect_url 30 ''nosuch'' [ex_inactive]
        = (Inl (HTTPException 404 ''URL not found''), [ex_inactive])
   \<and> status_code (HTTPException 404 ''URL not found'') \<noteq> 410"
  using redirect_unknown_not_found [of "''nosuch''" "[ex_inactive]" 30]
  by (simp add: ex_inactive_def)

text \<open>
  C7: for every stored record, deactivated or expired or neither, the statistics lookup
  of its code returns the snapshot of its fields (original URL, creation time, expiry,
  click count, active flag, title); the lookup raises status 404 exactly when no record
  has the code.
\<close>

theorem stats_snapshot:
  "(table_ok db \<and> r \<in> set db \<longrightarrow>
      get_url_stats e (short_code r) db =
        (Inr \<lparr>short_url = base_url @ short_code r,
              resp_original_url = original_url r,
              resp_click_count = click_count r,
              resp_created_at = created_at r,
              resp_expires_at = expires_at r,
              resp_is_active = is_active r,
              resp_title = title r,
              qr_code = Some (generate_qr_code e (base_url @ short_code r))\<rparr>, db))
   \<and> (c \<notin> set (map short_code db) \<longleftrightarrow>
        get_url_stats e c db = (Inl (HTTPException 404 ''URL not found''), db))"
proof -
  have "table_ok db \<and> r \<in> set db \<longrightarrow> query_first db (short_code r) = Some r"
    by (simp add: table_ok_def query_first_stored)
  then have "table_ok db \<and> r \<in> set db \<longrightarrow>
      get_url_stats e (short_code r) db =
        (Inr \<lparr>short_url = base_url @ short_code r,
              resp_original_url = original_url r,
              resp_click_count = click_count r,
              resp_created_at = created_at r,
              resp_expires_at = expires_at r,
              resp_is_active = is_active r,
              resp_title = title r,
              qr_code = Some (generate_qr_code e (base_url @ short_code r))\<rparr>, db)"
    by (auto simp: get_url_stats_def)
  moreover have "c \<notin> set (map short_code db) \<longleftrightarrow>
        get_url_stats e c db = (Inl (HTTPException 404 ''URL not found''), db)"
  proof (cases "query_first db c")
    case None
    then show ?thesis
      using query_first_None_iff [of db c] by (simp add: get_url_stats_def)
  next
    case (Some r')
    then have "c \<in> set (map short_code db)"
      using query_first_None_iff [of db c] by simp
    then show ?thesis
      using Some by (auto simp: get_url_stats_def)
  qed
  ultimately show ?thesis by blast
qed

theorem stats_snapshot_witness:
  "table_ok [ex_inactive] \<and> ex_inactive \<in> set [ex_inactive]
   \<and> \<not> is_active ex_inactive \<and> is_url_expired 30 ex_inactive
   \<and> get_url_stats ex_env ''abc'' [ex_inactive] =
        (Inr \<lparr>short_url = ''http://localhost:8000/abc'',
              resp_original_url = ''https://a.com'',
              resp_click_count = 3,
              resp_created_at = 10,
              resp_expires_at = Some 20,
              resp_is_active = False,
              resp_title = None,
              qr_code = Some ''data:image/png;base64,http://localhost:8000/abc''\<rparr>,
         [ex_inactive])"
  using stats_snapshot [of "[ex_inactive]" ex_inactive ex_env "''nosuch''"]
  by (simp add: table_ok_def ex_inactive_def ex_env_def get_url_stats_def query_first_def
      base_url_def generate_qr_code_def is_url_expired_def)

text \<open>
  C10: on a table that has a record \<open>r\<close> with code \<open>c\<close>, deactivating \<open>c\<close> replaces
  \<open>r\<close> by \<open>r\<close> with \<open>is_active\<close> set to false, and a successful resolve of \<open>c\<close>
  replaces \<open>r\<close> by \<open>r\<close> with \<open>click_count\<close> increased by one; every other field of
  \<open>r\<close> and every other row stay as they are. A statistics lookup returns the table
  unchanged.
\<close>

theorem frame_effects:
  assumes "table_ok db" and "query_first db c = Some r"
  shows "\<exists>i<length db. db ! i = r
          \<and> deactivate_url c db =
              (Inr ''URL deactivated successfully'', db[i := r\<lparr>is_active := False\<rparr>])
          \<and> (is_active r \<and> \<not> is_url_expired now r \<longrightarrow>
               redirect_url now c db =
                 (Inr (original_url r), db[i := r\<lparr>click_count := click_count r + 1\<rparr>]))
          \<and> snd (get_url_stats e c' db) = db"
proof -
  from assms(2) obtain i where i: "i < length db" "db ! i = r"
    using query_first_index by blast
  have d: "distinct (map url_id db)"
    using assms(1) by (simp add: table_ok_def)
  have "db_commit_update (r\<lparr>is_active := False\<rparr>) db = db[i := r\<lparr>is_active := False\<rparr>]"
    using db_commit_update_nth [OF d i(1)] i(2) by simp
  moreover have "db_commit_update (r\<lparr>click_count := click_count r + 1\<rparr>) db
      = db[i := r\<lparr>click_count := click_count r + 1\<rparr>]"
    using db_commit_update_nth [OF d i(1)] i(2) by simp
  moreover have "snd (get_url_stats e c' db) = db"
    by (simp add: get_url_stats_def split: option.splits)
  ultimately show ?thesis
    using i assms(2) by (auto simp: deactivate_url_def redirect_url_def)
qed

theorem frame_effects_witness:
  "table_ok [ex_row, ex_inactive] \<and> query_first [ex_row, ex_inactive] ''abcdef'' = Some ex_row
   \<and> deactivate_url ''abcdef'' [ex_row, ex_inactive]
        = (Inr ''URL deactivated successfully'', [ex_row\<lparr>is_active := False\<rparr>, ex_inactive])
   \<and> redirect_url 30 ''abcdef'' [ex_row, ex_inactive]
        = (Inr ''https://example.com/x'', [ex_row\<lparr>click_count := 1\<rparr>, ex_inactive])
   \<and> snd (get_url_stats ex_env ''abc'' [ex_row, ex_inactive]) = [ex_row, ex_inactive]"
proof -
  have t: "table_ok [ex_row, ex_inactive]"
    by (simp add: table_ok_def ex_row_def ex_inactive_def)
  have q: "query_first [ex_row, ex_inactive] ''abcdef'' = Some ex_row"
    by (simp add: query_first_def ex_row_def)
  from frame_effects [OF t q, of 30 ex_env "''abc''"] obtain i where
    i: "i < length [ex_row, ex_inactive]" "[ex_row, ex_inactive] ! i = ex_row"
    and d: "deactivate_url ''abcdef'' [ex_row, ex_inactive]
        = (Inr ''URL deactivated successfully'',
           [ex_row, ex_inactive][i := ex_row\<lparr>is_active := False\<rparr>])"
    and r: "is_active ex_row \<and> \<not> is_url_expired 30 ex_row \<longrightarrow>
        redirect_url 30 ''abcdef'' [ex_row, ex_inactive]
        = (Inr (original_url ex_row),
           [ex_row, ex_inactive][i := ex_row\<lparr>click_count := click_count ex_row + 1\<rparr>])"
    and s: "snd (get_url_stats ex_env ''abc'' [ex_row, ex_inactive]) = [ex_row, ex_inactive]"
    by blast
  have "i = 0"
    using i by (cases i) (simp_all add: ex_row_def ex_inactive_def)
  then show ?thesis
    using t q d r s by (simp add: ex_row_def is_url_expired_def)
qed

lemma fold_max_ge: "(a::nat) \<le> fold max xs a"
proof (induction xs arbitrary: a)
  case Nil
  then show ?case by simp
next
  case (Cons y ys)
  have "a \<le> max y a" by simp
  also have "\<dots> \<le> fold max ys (max y a)" by (rule Cons.IH)
  finally show ?case by simp
qed

lemma fold_max_mem: "(x::nat) \<in> set xs \<Longrightarrow> x \<le> fold max xs a"
proof (induction xs arbitrary: a)
  case Nil
  then show ?case by simp
next
  case (Cons y ys)
  show ?case
  proof (cases "x = y")
    case True
    have "x \<le> max x a" by simp
    also have "\<dots> \<le> fold max ys (max x a)" by (rule fold_max_ge)
    finally show ?thesis using True by simp
  next
    case False
    with Cons show ?thesis by simp
  qed
qed

lemma next_id_fresh: "x \<in> set db \<Longrightarrow> url_id x < next_id db"
  using fold_max_mem [of "url_id x" "map url_id db" 0] by (simp add: next_id_def less_Suc_eq_le)

lemma query_first_append:
  "query_first (db @ rows) c =
     (case query_first db c of None \<Rightarrow> query_first rows c | Some r \<Rightarrow> Some r)"
  unfolding query_first_def by (induction db) auto

lemma db_add_commit_InrD:
  assumes "db_add_commit ts code orig exp ttl db = Inr (row, db')"
  shows "db' = db @ [row] \<and> code \<notin> set (map short_code db)
       \<and> row = \<lparr>url_id = next_id db, short_code = code, original_url = orig,
                 created_at = ts, click_count = 0, expires_at = exp,
                 is_active = True, title = ttl\<rparr>"
  using assms query_first_None_iff [of db code]
  by (auto simp: db_add_commit_def Let_def split: if_splits)

lemma table_ok_append:
  assumes "table_ok db" and "short_code row \<notin> set (map short_code db)"
    and "url_id row = next_id db"
  shows "table_ok (db @ [row])"
  using assms next_id_fresh [of _ db] by (fastforce simp: table_ok_def)

lemma unique_short_code_fresh:
  assumes "unique_short_code rnd pos db = Some y"
  shows "query_first db (fst y) = None"
  by (rule unique_short_code.raw_induct
        [where P = "\<lambda>rnd pos db y. query_first db (fst y) = None", OF _ assms])
     (auto split: if_splits)

text \<open>
  The loop of lines 135-139 returns as soon as one of the codes it draws is not in the
  table; with a code it has drawn, the insert is not refused by the unique index.
\<close>

lemma unique_short_code_returns:
  "query_first db (generate_short_code rnd (pos + k * nat default_length) default_length) = None
     \<Longrightarrow> \<exists>y. unique_short_code rnd pos db = Some y"
proof (induction k arbitrary: pos)
  case 0
  then show ?case by (subst unique_short_code.simps) simp
next
  case (Suc k)
  show ?case
  proof (cases "query_first db (generate_short_code rnd pos default_length) = None")
    case True
    then show ?thesis by (subst unique_short_code.simps) simp
  next
    case False
    have "\<exists>y. unique_short_code rnd (pos + nat default_length) db = Some y"
      using Suc.prems by (intro Suc.IH) (simp add: algebra_simps)
    then show ?thesis using False by (subst unique_short_code.simps) simp
  qed
qed

lemma unique_short_code_inserts:
  assumes "unique_short_code rnd pos db = Some (code, pos')"
  shows "\<exists>row. db_add_commit ts code orig exp ttl db = Inr (row, db @ [row])"
  using unique_short_code_fresh [OF assms] by (simp add: db_add_commit_def Let_def)

lemma create_url_cases:
  assumes "create_url e now ts rq code db = (out, db')"
  shows "(\<exists>err. out = Inl err \<and> db' = db)
       \<or> (\<exists>exp. calc_expires_at now (expires_in_days rq) = Inr exp
            \<and> code \<notin> set (map short_code db)
            \<and> db' = db @ [\<lparr>url_id = next_id db, short_code = code, original_url = url rq,
                 created_at = ts, click_count = 0, expires_at = exp,
                 is_active = True, title = req_title rq\<rparr>]
            \<and> out = Inr \<lparr>short_url = base_url @ code,
                     resp_original_url = url rq,
                     resp_click_count = 0,
                     resp_created_at = ts,
                     resp_expires_at = exp,
                     resp_is_active = True,
                     resp_title = req_title rq,
                     qr_code = Some (generate_qr_code e (base_url @ code))\<rparr>)"
proof (cases "calc_expires_at now (expires_in_days rq)")
  case (Inl err)
  then show ?thesis using assms by (auto simp: create_url_def)
next
  case (Inr exp)
  show ?thesis
  proof (cases "db_add_commit ts code (url rq) exp (req_title rq) db")
    case (Inl err)
    then show ?thesis using assms Inr by (auto simp: create_url_def)
  next
    case r: (Inr p)
    obtain row db2 where p: "p = (row, db2)" by (cases p)
    from db_add_commit_InrD [OF r [unfolded p]] show ?thesis
      using assms Inr r p by (auto simp: create_url_def)
  qed
qed


lemma appends_refl: "appends P db db"
  by (simp add: appends_def)

lemma appends_trans: "appends P a b \<Longrightarrow> appends P b c \<Longrightarrow> appends P a c"
  by (auto simp: appends_def)


lemma create_url_appends:
  assumes "create_url e now ts rq code db = (out, db')"
    and "\<And>exp. calc_expires_at now (expires_in_days rq) = Inr exp \<Longrightarrow>
           P \<lparr>url_id = next_id db, short_code = code, original_url = url rq,
                 created_at = ts, click_count = 0, expires_at = exp,
                 is_active = True, title = req_title rq\<rparr>"
  shows "appends P db db'"
  using create_url_cases [OF assms(1)]
proof
  assume "\<exists>err. out = Inl err \<and> db' = db"
  then show ?thesis by (auto simp: appends_refl)
next
  assume "\<exists>exp. calc_expires_at now (expires_in_days rq) = Inr exp
            \<and> code \<notin> set (map short_code db)
            \<and> db' = db @ [\<lparr>url_id = next_id db, short_code = code, original_url = url rq,
                 created_at = ts, click_count = 0, expires_at = exp,
                 is_active = True, title = req_title rq\<rparr>]
            \<and> out = Inr \<lparr>short_url = base_url @ code,
                     resp_original_url = url rq,
                     resp_click_count = 0,
                     resp_created_at = ts,
                     resp_expires_at = exp,
                     resp_is_active = True,
                     resp_title = req_title rq,
                     qr_code = Some (generate_qr_code e (base_url @ code))\<rparr>"
  then obtain exp where x: "calc_expires_at now (expires_in_days rq) = Inr exp"
    and c: "code \<notin> set (map short_code db)"
    and d: "db' = db @ [\<lparr>url_id = next_id db, short_code = code, original_url = url rq,
                 created_at = ts, click_count = 0, expires_at = exp,
                 is_active = True, title = req_title rq\<rparr>]"
    by blast
  have "table_ok db \<longrightarrow> table_ok db'"
    unfolding d using c by (auto intro!: table_ok_append)
  then show ?thesis
    unfolding appends_def using d assms(2) [OF x] by auto
qed

lemma shorten_url_appends:
  assumes "shorten_url e rnd now ts rq db = Some (out, db')"
    and "\<And>exp code. calc_expires_at now (expires_in_days rq) = Inr exp \<Longrightarrow>
           P \<lparr>url_id = next_id db, short_code = code, original_url = url rq,
                 created_at = ts, click_count = 0, expires_at = exp,
                 is_active = True, title = req_title rq\<rparr>"
  shows "appends P db db'"
  using assms
  by (auto simp: shorten_url_def appends_refl split: if_splits option.splits
           intro: create_url_appends)

lemma bulk_loop_appends:
  assumes "\<And>i u code db exp. calc_expires_at (fst (clock i)) days = Inr exp \<Longrightarrow>
           P \<lparr>url_id = next_id db, short_code = code, original_url = u,
                 created_at = snd (clock i), click_count = 0, expires_at = exp,
                 is_active = True, title = None\<rparr>"
  shows "bulk_loop e rnd clock days us i pos rs es db = Some (rs', es', db') \<Longrightarrow>
         appends P db db'"
proof (induction us arbitrary: i pos rs es db)
  case Nil
  then show ?case by (simp add: appends_refl)
next
  case (Cons u us)
  show ?case
  proof (cases "is_valid_url e u")
    case False
    with Cons.prems Cons.IH show ?thesis by simp
  next
    case True
    with Cons.prems obtain code pos2 where
      u: "unique_short_code rnd pos db = Some (code, pos2)"
      by (auto split: option.splits)
    obtain out db2 where
      c: "create_url e (fst (clock i)) (snd (clock i))
            \<lparr>url = u, custom_alias = None, expires_in_days = days, req_title = None\<rparr>
            code db = (out, db2)"
      by (cases "create_url e (fst (clock i)) (snd (clock i))
            \<lparr>url = u, custom_alias = None, expires_in_days = days, req_title = None\<rparr>
            code db")
    have a: "appends P db db2"
      using c by (rule create_url_appends) (simp add: assms)
    have "appends P db2 db'"
      using Cons.prems True u c Cons.IH by (cases out) auto
    with a show ?thesis by (rule appends_trans)
  qed
qed

lemma bulk_shorten_urls_appends:
  assumes "\<And>i u code db exp.
           calc_expires_at (fst (clock i)) (bulk_expires_in_days rq) = Inr exp \<Longrightarrow>
           P \<lparr>url_id = next_id db, short_code = code, original_url = u,
                 created_at = snd (clock i), click_count = 0, expires_at = exp,
                 is_active = True, title = None\<rparr>"
    and "bulk_shorten_urls e rnd clock rq db = Some (resp, db')"
  shows "appends P db db'"
  using assms(2) bulk_loop_appends [of clock "bulk_expires_in_days rq" P, OF assms(1)]
  by (auto simp: bulk_shorten_urls_def split: option.splits)

lemma query_first_replace:
  assumes "short_code r' = short_code r"
  shows "query_first (map (\<lambda>x. if x = r then r' else x) db) c
       = map_option (\<lambda>x. if x = r then r' else x) (query_first db c)"
  unfolding query_first_def using assms by (induction db) auto

lemma table_ok_update:
  assumes "table_ok db" and "r \<in> set db" and "url_id r' = url_id r"
    and "short_code r' = short_code r"
  shows "table_ok (db_commit_update r' db)"
proof -
  have d: "distinct (map url_id db)" using assms(1) by (simp add: table_ok_def)
  have u: "db_commit_update r' db = map (\<lambda>x. if x = r then r' else x) db"
    using d assms(2,3) by (rule db_commit_update_eq)
  have a: "map url_id (db_commit_update r' db) = map url_id db"
    unfolding u using assms(3) by (induction db) auto
  have b: "map short_code (db_commit_update r' db) = map short_code db"
    unfolding u using assms(4) by (induction db) auto
  show ?thesis
    using assms(1) unfolding table_ok_def a b .
qed

lemma query_first_update:
  assumes "table_ok db" and "r \<in> set db" and "url_id r' = url_id r"
    and "short_code r' = short_code r"
  shows "query_first (db_commit_update r' db) c
       = map_option (\<lambda>x. if x = r then r' else x) (query_first db c)"
proof -
  have d: "distinct (map url_id db)" using assms(1) by (simp add: table_ok_def)
  have u: "db_commit_update r' db = map (\<lambda>x. if x = r then r' else x) db"
    using d assms(2,3) by (rule db_commit_update_eq)
  show ?thesis unfolding u using assms(4) by (rule query_first_replace)
qed

lemma redirect_url_table_ok:
  assumes "table_ok db"
  shows "table_ok (snd (redirect_url now c db))"
proof (cases "query_first db c")
  case None
  then show ?thesis using assms by (simp add: redirect_url_def)
next
  case (Some r)
  then have "r \<in> set db" by (simp add: query_first_SomeD)
  then have "table_ok (db_commit_update (r\<lparr>click_count := click_count r + 1\<rparr>) db)"
    using assms by (intro table_ok_update [where r = r]) auto
  then show ?thesis using assms Some by (simp add: redirect_url_def)
qed

lemma deactivate_url_table_ok:
  assumes "table_ok db"
  shows "table_ok (snd (deactivate_url c db))"
proof (cases "query_first db c")
  case None
  then show ?thesis using assms by (simp add: deactivate_url_def)
next
  case (Some r)
  then have "r \<in> set db" by (simp add: query_first_SomeD)
  then have "table_ok (db_commit_update (r\<lparr>is_active := False\<rparr>) db)"
    using assms by (intro table_ok_update [where r = r]) auto
  then show ?thesis using assms Some by (simp add: deactivate_url_def)
qed

lemma get_url_stats_table: "snd (get_url_stats e c db) = db"
  by (simp add: get_url_stats_def split: option.splits)

lemma handle_table_ok:
  assumes "table_ok db" and "handle e q db = Some db'"
  shows "table_ok db'"
proof (cases q)
  case (Shorten rnd now ts rq)
  with assms(2) obtain out where "shorten_url e rnd now ts rq db = Some (out, db')"
    by auto
  then have "appends (\<lambda>x. True) db db'" by (rule shorten_url_appends) simp
  with assms(1) show ?thesis by (auto simp: appends_def)
next
  case (BulkShorten rnd clock rq)
  with assms(2) obtain resp where "bulk_shorten_urls e rnd clock rq db = Some (resp, db')"
    by auto
  then have "appends (\<lambda>x. True) db db'" by (rule bulk_shorten_urls_appends [rotated]) simp
  with assms(1) show ?thesis by (auto simp: appends_def)
next
  case (Redirect now c)
  with assms show ?thesis using redirect_url_table_ok [of db now c] by auto
next
  case (Stats c)
  with assms show ?thesis by (simp add: get_url_stats_table)
next
  case (Deactivate c)
  with assms show ?thesis using deactivate_url_table_ok [of db c] by auto
qed

lemma run_table_ok:
  "table_ok db \<Longrightarrow> run e qs db = Some db' \<Longrightarrow> table_ok db'"
proof (induction qs arbitrary: db)
  case Nil
  then show ?case by simp
next
  case (Cons q qs)
  from Cons.prems(2) obtain db1 where h: "handle e q db = Some db1" and r: "run e qs db1 = Some db'"
    by (auto split: option.splits)
  from Cons.prems(1) h have "table_ok db1" by (rule handle_table_ok)
  then show ?case using r by (rule Cons.IH)
qed

lemma table_ok_empty: "table_ok []"
  by (simp add: table_ok_def)

text \<open>
  C2: no two rows of the table share a short code. The empty table satisfies the two
  constraints of the table, and every sequence of requests keeps them: after it any two
  rows at different positions have different codes. Each create path (a shorten request
  with a custom alias or with a generated code, and a bulk request) returns a table
  with distinct codes.
\<close>

theorem short_code_unique:
  assumes "table_ok db"
  shows "(run e qs db = Some db' \<longrightarrow>
            table_ok db' \<and> distinct (map short_code db')
            \<and> (\<forall>i<length db'. \<forall>j<length db'.
                  i \<noteq> j \<longrightarrow> short_code (db' ! i) \<noteq> short_code (db' ! j)))
       \<and> (shorten_url e rnd now ts rq db = Some (out, db1) \<longrightarrow> distinct (map short_code db1))
       \<and> (bulk_shorten_urls e rnd clock brq db = Some (bresp, db2) \<longrightarrow>
            distinct (map short_code db2))"
proof (intro conjI impI)
  assume r: "run e qs db = Some db'"
  from assms r show t: "table_ok db'" by (rule run_table_ok)
  then show d: "distinct (map short_code db')"
    by (simp add: table_ok_def)
  then show "\<forall>i<length db'. \<forall>j<length db'.
      i \<noteq> j \<longrightarrow> short_code (db' ! i) \<noteq> short_code (db' ! j)"
    by (auto simp: distinct_conv_nth)
next
  assume "shorten_url e rnd now ts rq db = Some (out, db1)"
  then have "handle e (Shorten rnd now ts rq) db = Some db1" by simp
  with assms have "table_ok db1" by (rule handle_table_ok)
  then show "distinct (map short_code db1)" by (simp add: table_ok_def)
next
  assume "bulk_shorten_urls e rnd clock brq db = Some (bresp, db2)"
  then have "handle e (BulkShorten rnd clock brq) db = Some db2" by simp
  with assms have "table_ok db2" by (rule handle_table_ok)
  then show "distinct (map short_code db2)" by (simp add: table_ok_def)
qed

theorem short_code_unique_witness:
  "table_ok []
   \<and> run ex_env
        [Shorten (\<lambda>i. i) ex_now (ex_now + 1) ex_rq,
         Shorten (\<lambda>i. i) (ex_now + 2) (ex_now + 3) ex_rq,
         Shorten (\<lambda>i. i) (ex_now + 4) (ex_now + 5) (ex_rq\<lparr>custom_alias := Some ''mine''\<rparr>),
         BulkShorten (\<lambda>i. i) (\<lambda>i. (ex_now + 6, ex_now + 7))
           \<lparr>urls = [''https://a.com'', ''https://b.com''], bulk_expires_in_days = None\<rparr>] []
      = Some ex_table
   \<and> map short_code ex_table = [''abcdef'', ''ghijkl'', ''mine'', ''mnopqr'', ''stuvwx'']
   \<and> distinct (map short_code ex_table)"
proof -
  have r: "run ex_env
        [Shorten (\<lambda>i. i) ex_now (ex_now + 1) ex_rq,
         Shorten (\<lambda>i. i) (ex_now + 2) (ex_now + 3) ex_rq,
         Shorten (\<lambda>i. i) (ex_now + 4) (ex_now + 5) (ex_rq\<lparr>custom_alias := Some ''mine''\<rparr>),
         BulkShorten (\<lambda>i. i) (\<lambda>i. (ex_now + 6, ex_now + 7))
           \<lparr>urls = [''https://a.com'', ''https://b.com''], bulk_expires_in_days = None\<rparr>] []
      = Some ex_table"
    by code_simp
  have m: "map short_code ex_table = [''abcdef'', ''ghijkl'', ''mine'', ''mnopqr'', ''stuvwx'']"
    by code_simp
  from short_code_unique [OF table_ok_empty, of ex_env _ ex_table] r
  have "distinct (map short_code ex_table)" by blast
  then show ?thesis using r m table_ok_empty by simp
qed

lemma appends_query_first:
  assumes "appends P db db'" and "query_first db c = Some r"
  shows "query_first db' c = Some r"
  using assms by (auto simp: appends_def query_first_append)

lemma redirect_url_clicks:
  assumes "table_ok db" and "query_first db c = Some r"
  shows "\<exists>r'. query_first (snd (redirect_url now c' db)) c = Some r'
           \<and> click_count r' = click_count r + (if redirected c (Redirect now c') db then 1 else 0)
           \<and> is_active r' = is_active r \<and> expires_at r' = expires_at r"
proof (cases "query_first db c'")
  case None
  then show ?thesis using assms(2) by (simp add: redirect_url_def)
next
  case (Some r2)
  then have m: "r2 \<in> set db" and c2: "short_code r2 = c'" by (simp_all add: query_first_SomeD)
  have cr: "short_code r = c" using assms(2) by (simp add: query_first_SomeD)
  show ?thesis
  proof (cases "is_active r2 \<and> \<not> is_url_expired now r2")
    case False
    then show ?thesis using assms(2) Some by (auto simp: redirect_url_def)
  next
    case True
    have q: "query_first (db_commit_update (r2\<lparr>click_count := click_count r2 + 1\<rparr>) db) c
        = Some (if r = r2 then r2\<lparr>click_count := click_count r2 + 1\<rparr> else r)"
      using query_first_update [OF assms(1) m, of "r2\<lparr>click_count := click_count r2 + 1\<rparr>" c]
        assms(2) by simp
    show ?thesis
    proof (cases "c' = c")
      case eq: True
      then have "r2 = r" using Some assms(2) by simp
      then show ?thesis using q True Some eq by (simp add: redirect_url_def)
    next
      case ne: False
      then have "r \<noteq> r2" using cr c2 by auto
      then show ?thesis using q True Some ne by (simp add: redirect_url_def)
    qed
  qed
qed

lemma deactivate_url_clicks:
  assumes "table_ok db" and "query_first db c = Some r"
  shows "\<exists>r'. query_first (snd (deactivate_url c' db)) c = Some r'
           \<and> click_count r' = click_count r"
proof (cases "query_first db c'")
  case None
  then show ?thesis using assms(2) by (simp add: deactivate_url_def)
next
  case (Some r2)
  then have m: "r2 \<in> set db" by (simp add: query_first_SomeD)
  have "query_first (db_commit_update (r2\<lparr>is_active := False\<rparr>) db) c
        = Some (if r = r2 then r2\<lparr>is_active := False\<rparr> else r)"
    using query_first_update [OF assms(1) m, of "r2\<lparr>is_active := False\<rparr>" c]
      assms(2) by simp
  then show ?thesis using Some by (simp add: deactivate_url_def)
qed

lemma handle_clicks:
  assumes "table_ok db" and "query_first db c = Some r" and "handle e q db = Some db'"
  shows "\<exists>r'. query_first db' c = Some r'
           \<and> click_count r' = click_count r + (if redirected c q db then 1 else 0)"
proof (cases q)
  case (Shorten rnd now ts rq)
  with assms(3) obtain out where "shorten_url e rnd now ts rq db = Some (out, db')"
    by auto
  then have "appends (\<lambda>x. True) db db'" by (rule shorten_url_appends) simp
  then show ?thesis using assms(2) Shorten by (simp add: appends_query_first)
next
  case (BulkShorten rnd clock rq)
  with assms(3) obtain resp where "bulk_shorten_urls e rnd clock rq db = Some (resp, db')"
    by auto
  then have "appends (\<lambda>x. True) db db'" by (rule bulk_shorten_urls_appends [rotated]) simp
  then show ?thesis using assms(2) BulkShorten by (simp add: appends_query_first)
next
  case (Redirect now c')
  then show ?thesis
    using assms(3) redirect_url_clicks [OF assms(1,2), of now c'] by auto
next
  case (Stats c')
  then show ?thesis using assms(2,3) by (simp add: get_url_stats_table)
next
  case (Deactivate c')
  then show ?thesis
    using assms(3) deactivate_url_clicks [OF assms(1,2), of c'] by auto
qed

lemma run_clicks:
  "table_ok db \<Longrightarrow> query_first db c = Some r \<Longrightarrow> run e qs db = Some db' \<Longrightarrow>
     \<exists>r'. query_first db' c = Some r'
        \<and> click_count r' = click_count r + int (successful_redirects e c qs db)"
proof (induction qs arbitrary: db r)
  case Nil
  then show ?case by simp
next
  case (Cons q qs)
  from Cons.prems(3) obtain db1 where h: "handle e q db = Some db1"
    and r: "run e qs db1 = Some db'"
    by (auto split: option.splits)
  from Cons.prems(1) h have t: "table_ok db1" by (rule handle_table_ok)
  from handle_clicks [OF Cons.prems(1,2) h] obtain r1 where
    q1: "query_first db1 c = Some r1"
    and c1: "click_count r1 = click_count r + (if redirected c q db then 1 else 0)"
    by blast
  from Cons.IH [OF t q1 r] obtain r' where
    "query_first db' c = Some r'"
    "click_count r' = click_count r1 + int (successful_redirects e c qs db1)"
    by blast
  then show ?case using c1 h by auto
qed

lemma db_commit_update_codes:
  assumes "table_ok db" and "r \<in> set db" and "url_id r' = url_id r"
    and "short_code r' = short_code r"
  shows "map short_code (db_commit_update r' db) = map short_code db"
proof -
  have d: "distinct (map url_id db)" using assms(1) by (simp add: table_ok_def)
  have u: "db_commit_update r' db = map (\<lambda>x. if x = r then r' else x) db"
    using d assms(2,3) by (rule db_commit_update_eq)
  show ?thesis unfolding u using assms(4) by (induction db) auto
qed

lemma redirect_url_codes:
  assumes "table_ok db"
  shows "map short_code (snd (redirect_url now c db)) = map short_code db"
proof (cases "query_first db c")
  case None
  then show ?thesis by (simp add: redirect_url_def)
next
  case (Some r)
  then have "r \<in> set db" by (simp add: query_first_SomeD)
  then have "map short_code (db_commit_update (r\<lparr>click_count := click_count r + 1\<rparr>) db)
      = map short_code db"
    using assms by (intro db_commit_update_codes [where r = r]) auto
  then show ?thesis using Some by (simp add: redirect_url_def)
qed

lemma deactivate_url_codes:
  assumes "table_ok db"
  shows "map short_code (snd (deactivate_url c db)) = map short_code db"
proof (cases "query_first db c")
  case None
  then show ?thesis by (simp add: deactivate_url_def)
next
  case (Some r)
  then have "r \<in> set db" by (simp add: query_first_SomeD)
  then have "map short_code (db_commit_update (r\<lparr>is_active := False\<rparr>) db)
      = map short_code db"
    using assms by (intro db_commit_update_codes [where r = r]) auto
  then show ?thesis using Some by (simp add: deactivate_url_def)
qed

lemma appends_new_row:
  assumes "appends P db0 db" and "c \<notin> set (map short_code db0)"
    and "query_first db c = Some r"
  shows "P r"
proof -
  from assms(1) obtain rows where d: "db = db0 @ rows" and p: "\<forall>x\<in>set rows. P x"
    by (auto simp: appends_def)
  have "query_first db0 c = None"
    using assms(2) by (simp add: query_first_None_iff)
  then have "query_first rows c = Some r"
    using assms(3) d by (simp add: query_first_append)
  then have "r \<in> set rows" by (simp add: query_first_SomeD)
  with p show ?thesis by simp
qed

lemma handle_created:
  assumes "table_ok db0" and "handle e q db0 = Some db"
    and "c \<notin> set (map short_code db0)" and "query_first db c = Some r"
  shows "click_count r = 0 \<and> is_active r"
proof (cases q)
  case (Shorten rnd now ts rq)
  with assms(2) obtain out where "shorten_url e rnd now ts rq db0 = Some (out, db)"
    by auto
  then have "appends (\<lambda>x. click_count x = 0 \<and> is_active x) db0 db"
    by (rule shorten_url_appends) simp
  then show ?thesis using assms(3,4) by (rule appends_new_row)
next
  case (BulkShorten rnd clock rq)
  with assms(2) obtain resp where "bulk_shorten_urls e rnd clock rq db0 = Some (resp, db)"
    by auto
  then have "appends (\<lambda>x. click_count x = 0 \<and> is_active x) db0 db"
    by (rule bulk_shorten_urls_appends [rotated]) simp
  then show ?thesis using assms(3,4) by (rule appends_new_row)
next
  case (Redirect now c')
  then have "map short_code db = map short_code db0"
    using assms(1,2) redirect_url_codes [of db0 now c'] by auto
  moreover have "c \<in> set (map short_code db)"
    using assms(4) query_first_None_iff [of db c] by simp
  ultimately show ?thesis using assms(3) by simp
next
  case (Stats c')
  then have "db = db0" using assms(2) by (simp add: get_url_stats_table)
  moreover have "c \<in> set (map short_code db)"
    using assms(4) query_first_None_iff [of db c] by simp
  ultimately show ?thesis using assms(3) by simp
next
  case (Deactivate c')
  then have "map short_code db = map short_code db0"
    using assms(1,2) deactivate_url_codes [of db0 c'] by auto
  moreover have "c \<in> set (map short_code db)"
    using assms(4) query_first_None_iff [of db c] by simp
  ultimately show ?thesis using assms(3) by simp
qed

lemma redirects_all_succeed:
  "table_ok db \<Longrightarrow> query_first db c = Some r \<Longrightarrow> is_active r \<Longrightarrow>
   \<forall>t\<in>set ts. \<not> is_url_expired t r \<Longrightarrow>
   \<exists>db' r'. run e (map (\<lambda>t. Redirect t c) ts) db = Some db' \<and> query_first db' c = Some r'
      \<and> click_count r' = click_count r + int (length ts)"
proof (induction ts arbitrary: db r)
  case Nil
  then show ?case by simp
next
  case (Cons t ts)
  let ?db1 = "snd (redirect_url t c db)"
  have ok: "fst (redirect_url t c db) = Inr (original_url r)"
    using Cons.prems by (simp add: redirect_url_def)
  from redirect_url_clicks [OF Cons.prems(1,2), of t c] obtain r1 where
    q1: "query_first ?db1 c = Some r1"
    and c1: "click_count r1 = click_count r + (if redirected c (Redirect t c) db then 1 else 0)"
    and a1: "is_active r1 = is_active r" and e1: "expires_at r1 = expires_at r"
    by blast
  have t1: "table_ok ?db1" using Cons.prems(1) by (rule redirect_url_table_ok)
  have x1: "\<forall>t\<in>set ts. \<not> is_url_expired t r1"
    using Cons.prems(4) e1 by (simp add: is_url_expired_def)
  from Cons.IH [OF t1 q1 _ x1] a1 Cons.prems(3) obtain db' r' where
    "run e (map (\<lambda>t. Redirect t c) ts) ?db1 = Some db'" "query_first db' c = Some r'"
    "click_count r' = click_count r1 + int (length ts)"
    by auto
  then show ?case using c1 ok by auto
qed

text \<open>
  C3: a record that a request has just created (its code \<open>c\<close> was not in the table
  before the request and is in the table after it) has \<open>click_count\<close> 0. After any
  further requests its \<open>click_count\<close> is the number of successful redirects of \<open>c\<close>
  among them; in particular \<open>K\<close> redirects of \<open>c\<close> in a row, none of them after the
  expiry, all succeed and leave \<open>click_count\<close> at \<open>K\<close>. A redirect that fails
  (status 404 or 410) returns the table unchanged.
\<close>

theorem click_count_counts_redirects:
  assumes "table_ok db0" and "handle e q db0 = Some db"
    and "c \<notin> set (map short_code db0)" and "query_first db c = Some r"
    and "run e qs db = Some db'"
  shows "click_count r = 0
       \<and> (\<exists>r'. query_first db' c = Some r'
              \<and> click_count r' = int (successful_redirects e c qs db))
       \<and> ((\<forall>t\<in>set ts. \<not> is_url_expired t r) \<longrightarrow>
            (\<exists>db2 r2. run e (map (\<lambda>t. Redirect t c) ts) db = Some db2
               \<and> query_first db2 c = Some r2 \<and> click_count r2 = int (length ts)))
       \<and> (\<forall>now c'. isl (fst (redirect_url now c' db)) \<longrightarrow> snd (redirect_url now c' db) = db)"
proof -
  have t: "table_ok db" using assms(1,2) by (rule handle_table_ok)
  have z: "click_count r = 0" and a: "is_active r"
    using handle_created [OF assms(1-4)] by simp_all
  have "\<exists>r'. query_first db' c = Some r'
              \<and> click_count r' = int (successful_redirects e c qs db)"
    using run_clicks [OF t assms(4,5)] z by simp
  moreover have "(\<forall>t\<in>set ts. \<not> is_url_expired t r) \<longrightarrow>
            (\<exists>db2 r2. run e (map (\<lambda>t. Redirect t c) ts) db = Some db2
               \<and> query_first db2 c = Some r2 \<and> click_count r2 = int (length ts))"
    using redirects_all_succeed [OF t assms(4) a, of ts e] z by simp
  moreover have "\<forall>now c'. isl (fst (redirect_url now c' db)) \<longrightarrow>
      snd (redirect_url now c' db) = db"
    by (auto simp: redirect_url_def split: option.splits if_splits)
  ultimately show ?thesis using z by blast
qed

theorem click_count_counts_redirects_witness:
  "table_ok []
   \<and> handle ex_env (Shorten (\<lambda>i. i) ex_now (ex_now + 1) ex_rq) [] = Some [ex_row]
   \<and> ''abcdef'' \<notin> set (map short_code [])
   \<and> query_first [ex_row] ''abcdef'' = Some ex_row
   \<and> run ex_env
        [Redirect (ex_now + 5) ''abcdef'', Redirect (ex_now + 6) ''nosuch'', Stats ''abcdef'',
         Deactivate ''abcdef'', Redirect (ex_now + 9) ''abcdef''] [ex_row]
      = Some [ex_row\<lparr>click_count := 1, is_active := False\<rparr>]
   \<and> click_count ex_row = 0
   \<and> successful_redirects ex_env ''abcdef''
        [Redirect (ex_now + 5) ''abcdef'', Redirect (ex_now + 6) ''nosuch'', Stats ''abcdef'',
         Deactivate ''abcdef'', Redirect (ex_now + 9) ''abcdef''] [ex_row] = 1"
proof -
  let ?qs = "[Redirect (ex_now + 5) ''abcdef'', Redirect (ex_now + 6) ''nosuch'',
              Stats ''abcdef'', Deactivate ''abcdef'', Redirect (ex_now + 9) ''abcdef'']"
  have h: "handle ex_env (Shorten (\<lambda>i. i) ex_now (ex_now + 1) ex_rq) [] = Some [ex_row]"
    by code_simp
  have n: "''abcdef'' \<notin> set (map short_code [])"
    by simp
  have q: "query_first [ex_row] ''abcdef'' = Some ex_row"
    by (simp add: query_first_def ex_row_def)
  have r: "run ex_env ?qs [ex_row] = Some [ex_row\<lparr>click_count := 1, is_active := False\<rparr>]"
    by code_simp
  have f: "query_first [ex_row\<lparr>click_count := 1, is_active := False\<rparr>] ''abcdef''
             = Some (ex_row\<lparr>click_count := 1, is_active := False\<rparr>)"
    by (simp add: query_first_def ex_row_def)
  note t = click_count_counts_redirects [OF table_ok_empty h n q r, of "[]"]
  from t have z: "click_count ex_row = 0"
    by (rule conjunct1)
  from t have "\<exists>r'. query_first [ex_row\<lparr>click_count := 1, is_active := False\<rparr>] ''abcdef''
                      = Some r'
                 \<and> click_count r' = int (successful_redirects ex_env ''abcdef'' ?qs [ex_row])"
    by (rule conjunct2 [THEN conjunct1])
  then have "successful_redirects ex_env ''abcdef'' ?qs [ex_row] = 1"
    unfolding f by simp
  then show ?thesis
    using table_ok_empty h n q r z by simp
qed












lemma calc_expires_at_absent:
  assumes "days = None \<or> days = Some 0" and "calc_expires_at now days = Inr exp"
  shows "exp = None"
  using assms by (auto simp: calc_expires_at_def)





















end
